theory Spec2Isabelle
  imports Main "HOL-Library.Char_ord" "HOL-Library.List_Lexorder"
begin

section \<open>The bootstrap generator of mixer templates (package bootstrapgen)\<close>

text \<open>
  The generator reads descriptor-set files, builds one model per file, renders a template
  over the models, injects the imports the template reported, formats the result and
  writes it to the output file. Go strings are byte sequences and are modelled as
  \<open>string\<close> (a list of 8-bit characters); an \<open>error\<close> value is modelled by its message.
\<close>

subsection \<open>Data model\<close>

text \<open>
  Modelled from the spec: the declaration of \<open>modelgen.TypeInfo\<close> is not among the sources.
  The spec lists its fields \<open>Name\<close>, \<open>IsValueType\<close>, \<open>IsResourceMessage\<close>, \<open>IsMap\<close>,
  \<open>MapValue\<close> (a nested TypeInfo, present iff \<open>IsMap\<close>) and \<open>Import\<close>; these are the fields
  the generator reads. The type is recursive through \<open>MapValue\<close>, which in Go is therefore a
  pointer: \<open>None\<close> is the nil pointer.
\<close>

datatype TypeInfo =
  TypeInfo (Name: string) (IsValueType: bool) (IsResourceMessage: bool) (IsMap: bool)
    (MapValue: "TypeInfo option") (Import: string)

record Generator =
  OutFilePath :: string
  ImportMapping :: "string \<rightharpoonup> string"

record 'model bootstrapModel =
  PkgName :: string
  TemplateModels :: "'model list"

text \<open>A run-time panic of the Go program.\<close>

datatype panic = NilPointerDereference

subsection \<open>Library functions the generator calls\<close>

text \<open>
  \<open>strings.Trim(s, cutset)\<close> for a cutset of ASCII characters: all leading and all trailing
  bytes that belong to the cutset are removed.
\<close>

definition trimRight :: "string \<Rightarrow> string \<Rightarrow> string" where
  "trimRight s cutset = rev (dropWhile (\<lambda>c. c \<in> set cutset) (rev s))"

definition trimLeft :: "string \<Rightarrow> string \<Rightarrow> string" where
  "trimLeft s cutset = dropWhile (\<lambda>c. c \<in> set cutset) s"

definition strings_Trim :: "string \<Rightarrow> string \<Rightarrow> string" where
  "strings_Trim s cutset = trimLeft (trimRight s cutset) cutset"

text \<open>\<open>strings.Join(elems, sep)\<close>.\<close>

fun strings_Join :: "string list \<Rightarrow> string \<Rightarrow> string" where
  "strings_Join [] sep = []"
| "strings_Join [a] sep = a"
| "strings_Join (a # b # rest) sep = a @ sep @ strings_Join (b # rest) sep"

text \<open>
  \<open>bytes.Replace(s, old, new, 1)\<close>: a copy of \<open>s\<close> with the first occurrence of \<open>old\<close>
  replaced by \<open>new\<close>; \<open>s\<close> itself when \<open>old\<close> does not occur.
\<close>

fun bytes_Replace1 :: "string \<Rightarrow> string \<Rightarrow> string \<Rightarrow> string" where
  "bytes_Replace1 [] old new = (if old = [] then new else [])"
| "bytes_Replace1 (c # cs) old new =
     (if take (length old) (c # cs) = old then new @ drop (length old) (c # cs)
      else c # bytes_Replace1 cs old new)"

text \<open>\<open>strings.Contains(s, substr)\<close>.\<close>

fun strings_Contains :: "string \<Rightarrow> string \<Rightarrow> bool" where
  "strings_Contains [] substr = (substr = [])"
| "strings_Contains (c # cs) substr =
     (take (length substr) (c # cs) = substr \<or> strings_Contains cs substr)"

text \<open>
  The value types of \<open>istio_mixer_v1_config_descriptor\<close> that the table names, and their
  \<open>String()\<close> method. The enum is generated from a protobuf definition of another
  repository; \<open>String()\<close> of such an enum gives the name of the constant.
\<close>

datatype ValueType = STRING | BOOL | INT64 | DOUBLE | IP_ADDRESS | DURATION | TIMESTAMP

fun ValueType_String :: "ValueType \<Rightarrow> string" where
  "ValueType_String STRING = ''STRING''"
| "ValueType_String BOOL = ''BOOL''"
| "ValueType_String INT64 = ''INT64''"
| "ValueType_String DOUBLE = ''DOUBLE''"
| "ValueType_String IP_ADDRESS = ''IP_ADDRESS''"
| "ValueType_String DURATION = ''DURATION''"
| "ValueType_String TIMESTAMP = ''TIMESTAMP''"

subsection \<open>Constants and template helpers\<close>

definition fullGoNameOfValueTypePkgName :: string where
  "fullGoNameOfValueTypePkgName = ''istio_mixer_v1_config_descriptor.''"

definition primitiveToValueType_entries :: "(string \<times> string) list" where
  "primitiveToValueType_entries =
    [(''string'', fullGoNameOfValueTypePkgName @ ValueType_String STRING),
     (''bool'', fullGoNameOfValueTypePkgName @ ValueType_String BOOL),
     (''int64'', fullGoNameOfValueTypePkgName @ ValueType_String INT64),
     (''float64'', fullGoNameOfValueTypePkgName @ ValueType_String DOUBLE),
     (''[]byte'', fullGoNameOfValueTypePkgName @ ValueType_String IP_ADDRESS),
     (''time.Duration'', fullGoNameOfValueTypePkgName @ ValueType_String DURATION),
     (''time.Time'', fullGoNameOfValueTypePkgName @ ValueType_String TIMESTAMP)]"

definition primitiveToValueType :: "string \<rightharpoonup> string" where
  "primitiveToValueType = map_of primitiveToValueType_entries"

text \<open>Reading a Go map at a key it does not hold gives the zero value, the empty string.\<close>

definition getValueType :: "TypeInfo \<Rightarrow> string" where
  "getValueType goType =
     (case primitiveToValueType (Name goType) of Some v \<Rightarrow> v | None \<Rightarrow> [])"

text \<open>
  \<open>||\<close> and \<open>&&\<close> evaluate from left to right and stop early, so \<open>ti.MapValue\<close> is
  dereferenced only when the first two flags are false and \<open>ti.IsMap\<close> is true.
\<close>

definition containsValueTypeOrResMsg :: "TypeInfo \<Rightarrow> panic + bool" where
  "containsValueTypeOrResMsg ti =
     (if IsValueType ti then Inr True
      else if IsResourceMessage ti then Inr True
      else if IsMap ti then
        (case MapValue ti of
           None \<Rightarrow> Inl NilPointerDereference
         | Some mv \<Rightarrow> Inr (IsValueType mv \<or> IsResourceMessage mv))
      else Inr False)"

definition placeholder :: string where
  "placeholder = ''$$additional_imports$$''"

text \<open>\<open>fmt.Sprintf(goImportFmt, s)\<close>: the argument between two double quotes.\<close>

definition goImportFmt :: "string \<Rightarrow> string" where
  "goImportFmt s = [CHR 0x22] @ s @ [CHR 0x22]"

fun contains :: "string list \<Rightarrow> string \<Rightarrow> bool" where
  "contains [] e = False"
| "contains (a # s) e = (if a = e then True else contains s e)"

text \<open>
  The closure \<open>reportTypeUsed\<close> updates the captured slice \<open>imprts\<close>: the model takes the
  slice and gives back the returned string and the new slice.
\<close>

definition reportTypeUsed :: "TypeInfo \<Rightarrow> string list \<Rightarrow> string \<times> string list" where
  "reportTypeUsed ti imprts =
     (if length (Import ti) > 0 then
        (let imprt = goImportFmt (Import ti)
         in if \<not> contains imprts imprt then ([], imprts @ [imprt]) else ([], imprts))
      else ([], imprts))"

definition getTypeName :: "TypeInfo \<Rightarrow> string" where
  "getTypeName goType = strings_Trim (Name goType) ''*''"

subsection \<open>The collaborators of \<open>Generate\<close>\<close>

text \<open>
  \<open>Generate\<close> calls the operating system, the protobuf library, the model builder
  (\<open>modelgen\<close>), the template engine, the Go formatter and the import fixer. Their code is
  not part of the generator; each is a field of the environment, a function from the
  arguments of the call to its result, with \<open>Inl\<close> carrying the message of the error it
  returns. The types of descriptor sets, parsers and models are left open.

  \<^item> \<open>template_Parse\<close>: the error of parsing \<open>tmplPkg.InterfaceTemplate\<close>, if any.
  \<^item> \<open>fds_String\<close>: the text \<open>fmt\<close> prints for a \<open>*FileDescriptorSet\<close> under \<open>%s\<close>
    (\<open>None\<close> is the nil pointer).
  \<^item> \<open>tmpl_Execute\<close>: the text the template writes to the buffer for the given data,
    together with the arguments of the calls of \<open>reportTypeUsed\<close> it makes, in the order
    of the calls. The helper returns the empty string whatever the slice holds, so the
    slice has no influence on the rendering.
  \<^item> \<open>os_Create\<close> and \<open>file_Write\<close>: the error of creating, and of writing, the named
    file, if any.
\<close>

record ('fds, 'parser, 'model) env =
  template_Parse :: "string option"
  ioutil_ReadFile :: "string \<Rightarrow> string + string"
  proto_Unmarshal :: "string \<Rightarrow> string + 'fds"
  fds_String :: "'fds option \<Rightarrow> string"
  CreateFileDescriptorSetParser ::
    "'fds \<Rightarrow> (string \<rightharpoonup> string) \<Rightarrow> string \<Rightarrow> string + 'parser"
  modelgen_Create :: "'parser \<Rightarrow> string + 'model"
  filepath_Dir :: "string \<Rightarrow> string"
  filepath_Base :: "string \<Rightarrow> string"
  tmpl_Execute :: "'model bootstrapModel \<Rightarrow> string + (string \<times> TypeInfo list)"
  format_Source :: "string \<Rightarrow> string + string"
  imports_Process :: "string \<Rightarrow> string \<Rightarrow> string + string"
  os_Create :: "string \<Rightarrow> string option"
  file_Write :: "string \<Rightarrow> string \<Rightarrow> string option"

text \<open>
  The calls that read or change the file system, and the calls of the three stages that
  follow model building, are recorded in a trace, in the order in which they happen,
  each with the arguments of the call: the path read, the data the template is executed
  with, the bytes given to the formatter and to the import fixer, the file created,
  written, closed and removed.
\<close>

datatype 'model event =
    EvReadFile string
  | EvExecute "'model bootstrapModel"
  | EvFormat string
  | EvImportsProcess string
  | EvCreate string
  | EvWrite string string
  | EvClose string
  | EvRemove string

subsection \<open>\<open>Generate\<close>\<close>

definition getParentDirName :: "('fds, 'parser, 'model) env \<Rightarrow> string \<Rightarrow> string" where
  "getParentDirName env filePath = filepath_Base env (filepath_Dir env filePath)"

definition getFileDescSet :: "('fds, 'parser, 'model) env \<Rightarrow> string \<Rightarrow> string + 'fds" where
  "getFileDescSet env path =
     (case ioutil_ReadFile env path of
        Inl err \<Rightarrow> Inl err
      | Inr bytes \<Rightarrow>
          (case proto_Unmarshal env bytes of
             Inl err \<Rightarrow> Inl err
           | Inr fds \<Rightarrow> Inr fds))"

text \<open>
  \<open>fmt.Errorf("cannot parse file '%s' as a FileDescriptorSetProto. %v", fds, err)\<close>, with
  the text printed for \<open>fds\<close> as first argument.
\<close>

definition cannotParseFile :: "string \<Rightarrow> string \<Rightarrow> string" where
  "cannotParseFile shown err =
     ''cannot parse file '' @ [CHR 0x27] @ shown @ [CHR 0x27] @
     '' as a FileDescriptorSetProto. '' @ err"

text \<open>
  \<open>fmt.Errorf("could not format generated code: %v. Source code is %s", err, src)\<close>.
\<close>

definition couldNotFormat :: "string \<Rightarrow> string \<Rightarrow> string" where
  "couldNotFormat err src =
     ''could not format generated code: '' @ err @ ''. Source code is '' @ src"

text \<open>
  The map \<open>fdsFiles\<close> is an association list with distinct keys; the order of the list is
  the order in which \<open>range\<close> happens to visit the map. Reading the map at a key gives the
  zero value when the key is absent.
\<close>

definition lookupLabel :: "(string \<times> string) list \<Rightarrow> string \<Rightarrow> string" where
  "lookupLabel fdsFiles k = (case map_of fdsFiles k of Some v \<Rightarrow> v | None \<Rightarrow> [])"

text \<open>
  The loop over the sorted paths: \<open>models\<close> is the slice built so far, \<open>tr\<close> the trace so
  far. The first failure ends the loop with the error that \<open>Generate\<close> returns.
\<close>

fun loadModels ::
  "('fds, 'parser, 'model) env \<Rightarrow> Generator \<Rightarrow> (string \<times> string) list \<Rightarrow> string list \<Rightarrow>
   'model list \<Rightarrow> 'model event list \<Rightarrow> (string + 'model list) \<times> 'model event list" where
  "loadModels env g fdsFiles [] models tr = (Inr models, tr)"
| "loadModels env g fdsFiles (fdsPath # rest) models tr =
     (case getFileDescSet env fdsPath of
        Inl err \<Rightarrow>
          (Inl (cannotParseFile (fds_String env None) err), tr @ [EvReadFile fdsPath])
      | Inr fds \<Rightarrow>
          (case CreateFileDescriptorSetParser env fds (ImportMapping g)
                  (lookupLabel fdsFiles fdsPath) of
             Inl err \<Rightarrow>
               (Inl (cannotParseFile (fds_String env (Some fds)) err),
                tr @ [EvReadFile fdsPath])
           | Inr parser \<Rightarrow>
               (case modelgen_Create env parser of
                  Inl err \<Rightarrow> (Inl err, tr @ [EvReadFile fdsPath])
                | Inr model \<Rightarrow>
                    loadModels env g fdsFiles rest (models @ [model])
                      (tr @ [EvReadFile fdsPath]))))"

text \<open>The slice \<open>imprts\<close> after the calls of \<open>reportTypeUsed\<close> that a rendering makes.\<close>

definition reportAll :: "TypeInfo list \<Rightarrow> string list \<Rightarrow> string list" where
  "reportAll calls imprts = foldl (\<lambda>acc ti. snd (reportTypeUsed ti acc)) imprts calls"

text \<open>
  \<open>Generate\<close> returns the error (\<open>None\<close> is nil) and the trace of the call. The deferred
  \<open>f.Close()\<close> runs when the function returns after the file was created.
\<close>

definition Generate ::
  "Generator \<Rightarrow> ('fds, 'parser, 'model) env \<Rightarrow> (string \<times> string) list \<Rightarrow>
   string option \<times> 'model event list" where
  "Generate g env fdsFiles =
     (case template_Parse env of
        Some err \<Rightarrow> (Some (''cannot load template: '' @ err), [])
      | None \<Rightarrow>
          (let fdss = sort (map fst fdsFiles) in
           case loadModels env g fdsFiles fdss [] [] of
             (Inl err, tr) \<Rightarrow> (Some err, tr)
           | (Inr models, tr) \<Rightarrow>
               (let pkgName = getParentDirName env (OutFilePath g);
                    data = \<lparr>PkgName = pkgName, TemplateModels = models\<rparr> in
                case tmpl_Execute env data of
                  Inl err \<Rightarrow>
                    (Some (''cannot execute the template with the given data: '' @ err),
                     tr @ [EvExecute data])
                | Inr (buf, calls) \<Rightarrow>
                    (let imprts = reportAll calls [];
                         bytesWithImpts =
                           bytes_Replace1 buf placeholder (strings_Join imprts [CHR 0x0A])
                     in
                     case format_Source env bytesWithImpts of
                       Inl err \<Rightarrow>
                         (Some (couldNotFormat err buf),
                          tr @ [EvExecute data, EvFormat bytesWithImpts])
                     | Inr fmtd \<Rightarrow>
                         (case imports_Process env (OutFilePath g) fmtd of
                            Inl err \<Rightarrow>
                              (Some (''could not fix imports for generated code: '' @ err),
                               tr @ [EvExecute data, EvFormat bytesWithImpts,
                                     EvImportsProcess fmtd])
                          | Inr imptd \<Rightarrow>
                              (case os_Create env (OutFilePath g) of
                                 Some err \<Rightarrow>
                                   (Some err,
                                    tr @ [EvExecute data, EvFormat bytesWithImpts,
                                          EvImportsProcess fmtd, EvCreate (OutFilePath g)])
                               | None \<Rightarrow>
                                   (case file_Write env (OutFilePath g) imptd of
                                      Some err \<Rightarrow>
                                        (Some err,
                                         tr @ [EvExecute data, EvFormat bytesWithImpts,
                                               EvImportsProcess fmtd,
                                               EvCreate (OutFilePath g),
                                               EvWrite (OutFilePath g) imptd,
                                               EvClose (OutFilePath g),
                                               EvRemove (OutFilePath g),
                                               EvClose (OutFilePath g)])
                                    | None \<Rightarrow>
                                        (None,
                                         tr @ [EvExecute data, EvFormat bytesWithImpts,
                                               EvImportsProcess fmtd,
                                               EvCreate (OutFilePath g),
                                               EvWrite (OutFilePath g) imptd,
                                               EvClose (OutFilePath g)]))))))))"

subsection \<open>Notions used in the statements\<close>

text \<open>
  What one pass through the body of the loop gives for one path: the model, or the error
  that \<open>Generate\<close> returns.
\<close>

definition loadOne ::
  "('fds, 'parser, 'model) env \<Rightarrow> Generator \<Rightarrow> (string \<times> string) list \<Rightarrow> string \<Rightarrow>
   string + 'model" where
  "loadOne env g fdsFiles fdsPath =
     (case getFileDescSet env fdsPath of
        Inl err \<Rightarrow> Inl (cannotParseFile (fds_String env None) err)
      | Inr fds \<Rightarrow>
          (case CreateFileDescriptorSetParser env fds (ImportMapping g)
                  (lookupLabel fdsFiles fdsPath) of
             Inl err \<Rightarrow> Inl (cannotParseFile (fds_String env (Some fds)) err)
           | Inr parser \<Rightarrow> modelgen_Create env parser))"

text \<open>The paths read, in the order of the trace.\<close>

fun readPaths :: "'model event list \<Rightarrow> string list" where
  "readPaths [] = []"
| "readPaths (EvReadFile p # evs) = p # readPaths evs"
| "readPaths (_ # evs) = readPaths evs"

text \<open>The events of the stages that follow model building.\<close>

fun isLaterStage :: "'model event \<Rightarrow> bool" where
  "isLaterStage (EvReadFile p) = False"
| "isLaterStage _ = True"

text \<open>The events that create, change or delete a file.\<close>

fun touchesFile :: "'model event \<Rightarrow> bool" where
  "touchesFile (EvCreate p) = True"
| "touchesFile (EvWrite p b) = True"
| "touchesFile (EvRemove p) = True"
| "touchesFile _ = False"

text \<open>The data the template is executed with.\<close>

definition dataOf ::
  "Generator \<Rightarrow> ('fds, 'parser, 'model) env \<Rightarrow> 'model list \<Rightarrow> 'model bootstrapModel" where
  "dataOf g env models =
     \<lparr>PkgName = getParentDirName env (OutFilePath g), TemplateModels = models\<rparr>"

text \<open>
  The bytes given to the formatter (\<open>bytesWithImpts\<close>) for the rendered text \<open>buf\<close> and the
  calls of \<open>reportTypeUsed\<close> made while rendering.
\<close>

definition withImports :: "string \<Rightarrow> TypeInfo list \<Rightarrow> string" where
  "withImports buf calls =
     bytes_Replace1 buf placeholder (strings_Join (reportAll calls []) [CHR 0x0A])"

subsection \<open>Concrete inputs\<close>

text \<open>A value type, a map of it, and a map of that map.\<close>

definition tiString :: TypeInfo where
  "tiString = TypeInfo ''string'' True False False None []"

definition tiMap1 :: TypeInfo where
  "tiMap1 = TypeInfo ''map[string]string'' False False True (Some tiString) []"

definition tiMap2 :: TypeInfo where
  "tiMap2 = TypeInfo ''map[string]map[string]string'' False False True (Some tiMap1) []"

text \<open>Three types that report imports: the first two name the same import.\<close>

definition tiA :: TypeInfo where
  "tiA = TypeInfo ''*pkg_a.Res'' False True False None ''istio.io/a''"

definition tiA' :: TypeInfo where
  "tiA' = TypeInfo ''pkg_a.Other'' False True False None ''istio.io/a''"

definition tiB :: TypeInfo where
  "tiB = TypeInfo ''pkg_b.Res'' False True False None ''istio.io/b''"

text \<open>
  An environment in which every call succeeds, but for the file \<open>missing.fds\<close>, which
  cannot be read, and the file \<open>bad.fds\<close>, whose bytes are not a descriptor set. A file
  holds its own path as content, the descriptor set, the parser and the model are
  strings, and the template writes the package name, the placeholder and the models, and
  reports \<open>tiA\<close>, \<open>tiB\<close>, \<open>tiA'\<close> and \<open>tiString\<close> in this order. The formatter and the
  import fixer give their input back.
\<close>

definition envOk :: "(string, string, string) env" where
  "envOk =
    \<lparr>template_Parse = None,
     ioutil_ReadFile = (\<lambda>p. if p = ''missing.fds''
        then Inl ''open missing.fds: no such file or directory'' else Inr p),
     proto_Unmarshal = (\<lambda>b. if b = ''bad.fds'' then Inl ''unexpected EOF'' else Inr b),
     fds_String = (\<lambda>x. case x of None \<Rightarrow> ''<nil>'' | Some f \<Rightarrow> f),
     CreateFileDescriptorSetParser = (\<lambda>fds im label. Inr (fds @ ''#'' @ label)),
     modelgen_Create = (\<lambda>parser. if parser = ''nomodel.fds#''
        then Inl ''no template message'' else Inr parser),
     filepath_Dir = (\<lambda>p. ''gen''),
     filepath_Base = (\<lambda>p. p),
     tmpl_Execute = (\<lambda>d. Inr (''package '' @ PkgName d @ '' import('' @ placeholder @ '') ''
        @ concat (TemplateModels d), [tiA, tiB, tiA', tiString])),
     format_Source = (\<lambda>src. Inr src),
     imports_Process = (\<lambda>p src. Inr src),
     os_Create = (\<lambda>p. None),
     file_Write = (\<lambda>p b. None)\<rparr>"

text \<open>The same environment with a formatter that fails.\<close>

definition envFormatFails :: "(string, string, string) env" where
  "envFormatFails = envOk\<lparr>format_Source := (\<lambda>src. Inl ''1:1: expected declaration'')\<rparr>"

text \<open>A template that writes no placeholder, with the formatter that fails.\<close>

definition envNoPlaceholder :: "(string, string, string) env" where
  "envNoPlaceholder =
     envFormatFails\<lparr>tmpl_Execute := (\<lambda>d. Inr (''package '' @ PkgName d, [tiA]))\<rparr>"

text \<open>The environment \<open>envOk\<close> with a write that fails.\<close>

definition envWriteFails :: "(string, string, string) env" where
  "envWriteFails = envOk\<lparr>file_Write := (\<lambda>p b. Some ''no space left on device'')\<rparr>"

definition gen0 :: Generator where
  "gen0 = \<lparr>OutFilePath = ''gen/out.go'', ImportMapping = Map.empty\<rparr>"

section \<open>Properties of the template helpers\<close>

subsection \<open>\<open>containsValueTypeOrResMsg\<close>\<close>

text \<open>
  Claim C1, as stated: \<open>containsValueTypeOrResMsg(ti)\<close> is true iff \<open>ti.IsValueType\<close>, or
  \<open>ti.IsResourceMessage\<close>, or \<open>ti.IsMap\<close> and \<open>containsValueTypeOrResMsg(ti.MapValue)\<close>,
  also for nested maps of depth 2 and more. The function does not call itself: on a map
  whose values are maps of strings it returns false, although it returns true on the map
  value.
\<close>

theorem containsValueTypeOrResMsg_nested_counterexample:
  "MapValue tiMap2 = Some tiMap1
   \<and> containsValueTypeOrResMsg tiMap1 = Inr True
   \<and> containsValueTypeOrResMsg tiMap2 \<noteq>
       Inr (IsValueType tiMap2 \<or> IsResourceMessage tiMap2 \<or>
            (IsMap tiMap2 \<and> containsValueTypeOrResMsg tiMap1 = Inr True))"
  by (simp add: containsValueTypeOrResMsg_def tiMap2_def tiMap1_def tiString_def)

text \<open>
  Claim C1, amended: \<open>containsValueTypeOrResMsg(ti)\<close> is true iff \<open>ti.IsValueType\<close>, or
  \<open>ti.IsResourceMessage\<close>, or \<open>ti.IsMap\<close> and the map value itself is a value type or a
  resource message: one level of map value is inspected. The recursive law of the claim
  holds when the map value is not itself a map, and a type that is not a map is decided
  by its own two flags.
\<close>

theorem containsValueTypeOrResMsg_one_level:
  "(MapValue ti = Some mv \<longrightarrow>
      containsValueTypeOrResMsg ti =
        Inr (IsValueType ti \<or> IsResourceMessage ti \<or>
             (IsMap ti \<and> (IsValueType mv \<or> IsResourceMessage mv))))
   \<and> (MapValue ti = Some mv \<and> \<not> IsMap mv \<longrightarrow>
      containsValueTypeOrResMsg ti =
        Inr (IsValueType ti \<or> IsResourceMessage ti \<or>
             (IsMap ti \<and> containsValueTypeOrResMsg mv = Inr True)))
   \<and> (\<not> IsMap ti \<longrightarrow>
      containsValueTypeOrResMsg ti = Inr (IsValueType ti \<or> IsResourceMessage ti))"
  by (auto simp: containsValueTypeOrResMsg_def split: option.splits)

theorem containsValueTypeOrResMsg_one_level_witness:
  "containsValueTypeOrResMsg tiMap2 = Inr False
   \<and> containsValueTypeOrResMsg tiMap1 = Inr True
   \<and> containsValueTypeOrResMsg tiString = Inr True"
  using containsValueTypeOrResMsg_one_level [of tiMap2 tiMap1]
    containsValueTypeOrResMsg_one_level [of tiMap1 tiString]
    containsValueTypeOrResMsg_one_level [of tiString tiString]
  by (simp add: tiMap2_def tiMap1_def tiString_def)

subsection \<open>\<open>getTypeName\<close>\<close>

lemma takeWhile_eq_replicate:
  "takeWhile (\<lambda>c. c = x) xs = replicate (length (takeWhile (\<lambda>c. c = x) xs)) x"
  by (induction xs) auto

lemma trimLeft_split:
  "s = replicate (length (takeWhile (\<lambda>c. c = x) s)) x @ trimLeft s [x]"
proof -
  have "s = takeWhile (\<lambda>c. c = x) s @ dropWhile (\<lambda>c. c = x) s" by simp
  then show ?thesis
    using takeWhile_eq_replicate [of x s] by (simp add: trimLeft_def)
qed

lemma trimRight_split:
  "s = trimRight s [x] @ replicate (length (takeWhile (\<lambda>c. c = x) (rev s))) x"
proof -
  have "rev s = replicate (length (takeWhile (\<lambda>c. c = x) (rev s))) x @ trimLeft (rev s) [x]"
    by (rule trimLeft_split)
  then have "rev (rev s) =
      rev (replicate (length (takeWhile (\<lambda>c. c = x) (rev s))) x @ trimLeft (rev s) [x])"
    by simp
  then show ?thesis
    by (simp add: trimRight_def trimLeft_def)
qed

lemma strings_Trim_split:
  "\<exists>a b. s = replicate a x @ strings_Trim s [x] @ replicate b x"
proof -
  obtain b where b: "s = trimRight s [x] @ replicate b x"
    using trimRight_split by blast
  obtain a where a: "trimRight s [x] = replicate a x @ trimLeft (trimRight s [x]) [x]"
    using trimLeft_split by blast
  have "s = (replicate a x @ trimLeft (trimRight s [x]) [x]) @ replicate b x"
    using a b by metis
  then have "s = replicate a x @ strings_Trim s [x] @ replicate b x"
    by (simp add: strings_Trim_def)
  then show ?thesis by blast
qed

lemma trimLeft_hd: "trimLeft s [x] \<noteq> [] \<Longrightarrow> hd (trimLeft s [x]) \<noteq> x"
  using hd_dropWhile [of "\<lambda>c. c = x" s] by (simp add: trimLeft_def)

lemma trimRight_last: "trimRight s [x] \<noteq> [] \<Longrightarrow> last (trimRight s [x]) \<noteq> x"
  using hd_dropWhile [of "\<lambda>c. c = x" "rev s"] by (simp add: trimRight_def last_rev)

lemma last_dropWhile: "dropWhile P xs \<noteq> [] \<Longrightarrow> last (dropWhile P xs) = last xs"
  by (induction xs) auto

lemma strings_Trim_ends:
  assumes "strings_Trim s [x] \<noteq> []"
  shows "hd (strings_Trim s [x]) \<noteq> x \<and> last (strings_Trim s [x]) \<noteq> x"
proof
  show "hd (strings_Trim s [x]) \<noteq> x"
    using assms trimLeft_hd by (simp add: strings_Trim_def)
  have ne: "trimRight s [x] \<noteq> []"
    using assms by (auto simp: strings_Trim_def trimLeft_def)
  have "last (strings_Trim s [x]) = last (trimRight s [x])"
    using assms last_dropWhile by (simp add: strings_Trim_def trimLeft_def)
  then show "last (strings_Trim s [x]) \<noteq> x"
    using trimRight_last [OF ne] by simp
qed

lemma trimRight_id: "s = [] \<or> last s \<noteq> x \<Longrightarrow> trimRight s [x] = s"
  by (cases s rule: rev_cases) (auto simp: trimRight_def)

lemma trimLeft_id: "s = [] \<or> hd s \<noteq> x \<Longrightarrow> trimLeft s [x] = s"
  by (cases s) (auto simp: trimLeft_def)

text \<open>
  Claim C2, as stated: \<open>getTypeName\<close> strips the leading pointer marker and changes nothing
  else, so that a name with no leading marker comes back unchanged. \<open>strings.Trim\<close> cuts
  at both ends: the name \<open>Foo*\<close> has no leading marker and comes back as \<open>Foo\<close>.
\<close>

theorem getTypeName_trailing_counterexample:
  "hd (Name (TypeInfo ''Foo*'' False True False None [])) \<noteq> CHR ''*''
   \<and> getTypeName (TypeInfo ''Foo*'' False True False None []) = ''Foo''
   \<and> getTypeName (TypeInfo ''Foo*'' False True False None []) \<noteq>
       Name (TypeInfo ''Foo*'' False True False None [])"
  by (simp add: getTypeName_def strings_Trim_def trimLeft_def trimRight_def)

text \<open>
  Claim C2, amended: \<open>getTypeName(ti)\<close> is \<open>ti.Name\<close> without its leading and without its
  trailing \<open>*\<close> characters, and nothing else is changed: the name is a run of \<open>*\<close>, then
  the result, then a run of \<open>*\<close>, and a result that is not empty neither begins nor ends
  with \<open>*\<close> (what lies between, also a \<open>*\<close>, is kept). When the name does not end with \<open>*\<close>
  the result is the name without its leading \<open>*\<close> characters, and a name that neither
  begins nor ends with \<open>*\<close> is returned as it is.
\<close>

theorem getTypeName_trims_both_ends:
  "(\<exists>a b. Name ti = replicate a (CHR ''*'') @ getTypeName ti @ replicate b (CHR ''*''))
   \<and> (getTypeName ti \<noteq> [] \<longrightarrow>
        hd (getTypeName ti) \<noteq> CHR ''*'' \<and> last (getTypeName ti) \<noteq> CHR ''*'')
   \<and> (Name ti = [] \<or> last (Name ti) \<noteq> CHR ''*'' \<longrightarrow>
        getTypeName ti = dropWhile (\<lambda>c. c = CHR ''*'') (Name ti))
   \<and> (Name ti = [] \<or> (hd (Name ti) \<noteq> CHR ''*'' \<and> last (Name ti) \<noteq> CHR ''*'') \<longrightarrow>
        getTypeName ti = Name ti)"
proof (intro conjI impI)
  show "\<exists>a b. Name ti = replicate a (CHR ''*'') @ getTypeName ti @ replicate b (CHR ''*'')"
    unfolding getTypeName_def by (rule strings_Trim_split)
next
  assume "getTypeName ti \<noteq> []"
  then show "hd (getTypeName ti) \<noteq> CHR ''*''" "last (getTypeName ti) \<noteq> CHR ''*''"
    using strings_Trim_ends [of "Name ti" "CHR ''*''"] by (simp_all add: getTypeName_def)
next
  assume "Name ti = [] \<or> last (Name ti) \<noteq> CHR ''*''"
  then have "trimRight (Name ti) ''*'' = Name ti" by (rule trimRight_id)
  then show "getTypeName ti = dropWhile (\<lambda>c. c = CHR ''*'') (Name ti)"
    by (simp add: getTypeName_def strings_Trim_def trimLeft_def)
next
  assume a: "Name ti = [] \<or> (hd (Name ti) \<noteq> CHR ''*'' \<and> last (Name ti) \<noteq> CHR ''*'')"
  then have "trimRight (Name ti) ''*'' = Name ti" using trimRight_id by blast
  moreover have "trimLeft (Name ti) ''*'' = Name ti" using a trimLeft_id by blast
  ultimately show "getTypeName ti = Name ti"
    by (simp add: getTypeName_def strings_Trim_def)
qed

theorem getTypeName_trims_both_ends_witness:
  "getTypeName (TypeInfo ''*FooType'' False True False None []) = ''FooType''
   \<and> getTypeName (TypeInfo ''FooType'' False True False None []) = ''FooType''
   \<and> getTypeName (TypeInfo ''*a*b'' False True False None []) = ''a*b''"
  using getTypeName_trims_both_ends [of "TypeInfo ''*FooType'' False True False None []"]
    getTypeName_trims_both_ends [of "TypeInfo ''FooType'' False True False None []"]
    getTypeName_trims_both_ends [of "TypeInfo ''*a*b'' False True False None []"]
  by simp

subsection \<open>\<open>getValueType\<close>\<close>

text \<open>
  Claim C7: \<open>getValueType(ti)\<close> looks \<open>ti.Name\<close> up in a fixed table of exactly seven
  entries (string, bool, int64, float64, []byte as IP address, time.Duration, time.Time),
  returns the entry's value-type identifier when the name is in the table, and returns the
  empty string for every other name; it never fails.
\<close>

theorem getValueType_table:
  "dom primitiveToValueType =
      {''string'', ''bool'', ''int64'', ''float64'', ''[]byte'', ''time.Duration'',
       ''time.Time''}
   \<and> card (dom primitiveToValueType) = 7
   \<and> primitiveToValueType ''string'' = Some ''istio_mixer_v1_config_descriptor.STRING''
   \<and> primitiveToValueType ''bool'' = Some ''istio_mixer_v1_config_descriptor.BOOL''
   \<and> primitiveToValueType ''int64'' = Some ''istio_mixer_v1_config_descriptor.INT64''
   \<and> primitiveToValueType ''float64'' = Some ''istio_mixer_v1_config_descriptor.DOUBLE''
   \<and> primitiveToValueType ''[]byte'' = Some ''istio_mixer_v1_config_descriptor.IP_ADDRESS''
   \<and> primitiveToValueType ''time.Duration'' =
        Some ''istio_mixer_v1_config_descriptor.DURATION''
   \<and> primitiveToValueType ''time.Time'' = Some ''istio_mixer_v1_config_descriptor.TIMESTAMP''
   \<and> (\<forall>v. primitiveToValueType (Name ti) = Some v \<longrightarrow> getValueType ti = v)
   \<and> (Name ti \<notin> dom primitiveToValueType \<longrightarrow> getValueType ti = [])"
proof -
  have d: "dom primitiveToValueType =
      {''string'', ''bool'', ''int64'', ''float64'', ''[]byte'', ''time.Duration'',
       ''time.Time''}"
    by (auto simp: primitiveToValueType_def primitiveToValueType_entries_def
        split: if_splits)
  have c: "card (dom primitiveToValueType) = 7"
    by (simp add: d)
  have e: "primitiveToValueType ''string'' = Some ''istio_mixer_v1_config_descriptor.STRING''"
    "primitiveToValueType ''bool'' = Some ''istio_mixer_v1_config_descriptor.BOOL''"
    "primitiveToValueType ''int64'' = Some ''istio_mixer_v1_config_descriptor.INT64''"
    "primitiveToValueType ''float64'' = Some ''istio_mixer_v1_config_descriptor.DOUBLE''"
    "primitiveToValueType ''[]byte'' = Some ''istio_mixer_v1_config_descriptor.IP_ADDRESS''"
    "primitiveToValueType ''time.Duration'' =
       Some ''istio_mixer_v1_config_descriptor.DURATION''"
    "primitiveToValueType ''time.Time'' = Some ''istio_mixer_v1_config_descriptor.TIMESTAMP''"
    by (simp_all add: primitiveToValueType_def primitiveToValueType_entries_def
        fullGoNameOfValueTypePkgName_def)
  have g: "(\<forall>v. primitiveToValueType (Name ti) = Some v \<longrightarrow> getValueType ti = v)
     \<and> (Name ti \<notin> dom primitiveToValueType \<longrightarrow> getValueType ti = [])"
    by (auto simp: getValueType_def split: option.splits)
  show ?thesis using d c e g by blast
qed

theorem getValueType_table_witness:
  "getValueType (TypeInfo ''string'' True False False None []) =
     ''istio_mixer_v1_config_descriptor.STRING''
   \<and> getValueType (TypeInfo ''uint32'' False False False None []) = []"
  using getValueType_table [of "TypeInfo ''string'' True False False None []"]
    getValueType_table [of "TypeInfo ''uint32'' False False False None []"]
  by simp

subsection \<open>\<open>reportTypeUsed\<close>\<close>

lemma contains_iff: "contains s e \<longleftrightarrow> e \<in> set s"
  by (induction s) auto

lemma reportTypeUsed_snd:
  "snd (reportTypeUsed ti imprts) =
     (if Import ti \<noteq> [] \<and> goImportFmt (Import ti) \<notin> set imprts
      then imprts @ [goImportFmt (Import ti)] else imprts)"
  by (simp add: reportTypeUsed_def Let_def contains_iff)

lemma reportAll_Nil: "reportAll [] imprts = imprts"
  by (simp add: reportAll_def)

lemma reportAll_Cons:
  "reportAll (ti # calls) imprts = reportAll calls (snd (reportTypeUsed ti imprts))"
  by (simp add: reportAll_def)

lemma reportAll_snoc:
  "reportAll (calls @ [ti]) imprts = snd (reportTypeUsed ti (reportAll calls imprts))"
  by (simp add: reportAll_def)

lemma reportAll_distinct: "distinct imprts \<Longrightarrow> distinct (reportAll calls imprts)"
  by (induction calls arbitrary: imprts)
    (simp_all add: reportAll_Nil reportAll_Cons reportTypeUsed_snd)

lemma reportAll_first_seen:
  "reportAll calls [] =
     rev (remdups (rev (map goImportFmt (filter (\<lambda>s. s \<noteq> []) (map Import calls)))))"
proof (induction calls rule: rev_induct)
  case Nil
  show ?case by (simp add: reportAll_Nil)
next
  case (snoc ti calls)
  have s: "set (reportAll calls []) =
      set (map goImportFmt (filter (\<lambda>s. s \<noteq> []) (map Import calls)))"
    by (simp add: snoc.IH)
  show ?case
    unfolding reportAll_snoc reportTypeUsed_snd s
    by (simp add: snoc.IH)
qed

lemma reportAll_replicate:
  "Import ti \<noteq> [] \<Longrightarrow>
   reportAll (replicate (Suc n) ti) imprts =
     (if goImportFmt (Import ti) \<in> set imprts then imprts
      else imprts @ [goImportFmt (Import ti)])"
  by (induction n arbitrary: imprts)
    (simp_all add: reportAll_Nil reportAll_Cons reportTypeUsed_snd)

lemma count_list_distinct: "distinct xs \<Longrightarrow> x \<in> set xs \<Longrightarrow> count_list xs x = 1"
  by (induction xs) (auto simp: count_list_0_iff)

text \<open>
  Claim C5: \<open>reportTypeUsed(ti)\<close> always returns the empty string, and appends the entry
  for \<open>ti.Import\<close> to the slice exactly when \<open>ti.Import\<close> is not empty and the slice holds
  no equal entry. Hence the slice of a render pass, which starts empty, never holds an
  entry twice and lists the entries in the order in which they were first reported; and
  any positive number of calls with the same non-empty import leaves exactly one entry
  for it.
\<close>

theorem reportTypeUsed_dedup:
  "fst (reportTypeUsed ti imprts) = []
   \<and> snd (reportTypeUsed ti imprts) =
       (if Import ti \<noteq> [] \<and> goImportFmt (Import ti) \<notin> set imprts
        then imprts @ [goImportFmt (Import ti)] else imprts)
   \<and> distinct (reportAll calls [])
   \<and> reportAll calls [] =
       rev (remdups (rev (map goImportFmt (filter (\<lambda>s. s \<noteq> []) (map Import calls)))))
   \<and> (Import ti \<noteq> [] \<and> 0 < n \<longrightarrow> reportAll (replicate n ti) [] = [goImportFmt (Import ti)])
   \<and> (Import ti \<noteq> [] \<and> 0 < n \<and> distinct imprts \<longrightarrow>
        distinct (reportAll (replicate n ti) imprts)
        \<and> count_list (reportAll (replicate n ti) imprts) (goImportFmt (Import ti)) = 1)"
proof (intro conjI impI)
  show "fst (reportTypeUsed ti imprts) = []"
    by (simp add: reportTypeUsed_def Let_def)
  show "snd (reportTypeUsed ti imprts) =
       (if Import ti \<noteq> [] \<and> goImportFmt (Import ti) \<notin> set imprts
        then imprts @ [goImportFmt (Import ti)] else imprts)"
    by (rule reportTypeUsed_snd)
  show "distinct (reportAll calls [])"
    by (rule reportAll_distinct) simp
  show "reportAll calls [] =
       rev (remdups (rev (map goImportFmt (filter (\<lambda>s. s \<noteq> []) (map Import calls)))))"
    by (rule reportAll_first_seen)
next
  assume a: "Import ti \<noteq> [] \<and> 0 < n"
  then obtain m where "n = Suc m" by (cases n) auto
  then show "reportAll (replicate n ti) [] = [goImportFmt (Import ti)]"
    using a reportAll_replicate [of ti m "[]"] by simp
next
  assume a: "Import ti \<noteq> [] \<and> 0 < n \<and> distinct imprts"
  then obtain m where n: "n = Suc m" by (cases n) auto
  show "distinct (reportAll (replicate n ti) imprts)"
    using a by (simp add: reportAll_distinct)
  have r: "reportAll (replicate n ti) imprts =
     (if goImportFmt (Import ti) \<in> set imprts then imprts
      else imprts @ [goImportFmt (Import ti)])"
    using a n reportAll_replicate [of ti m imprts] by simp
  show "count_list (reportAll (replicate n ti) imprts) (goImportFmt (Import ti)) = 1"
  proof (cases "goImportFmt (Import ti) \<in> set imprts")
    case True
    then show ?thesis using a r by (simp add: count_list_distinct)
  next
    case False
    then show ?thesis using r by (simp add: count_list_0_iff)
  qed
qed

theorem reportTypeUsed_dedup_witness:
  "reportTypeUsed tiA [] = ([], [goImportFmt ''istio.io/a''])
   \<and> reportAll [tiA, tiB, tiA', tiString] [] = [goImportFmt ''istio.io/a'', goImportFmt ''istio.io/b'']
   \<and> reportAll (replicate 3 tiA) [] = [goImportFmt ''istio.io/a'']
   \<and> count_list (reportAll (replicate 2 tiA) [goImportFmt ''istio.io/b'', goImportFmt ''istio.io/a''])
        (goImportFmt ''istio.io/a'') = 1"
  using reportTypeUsed_dedup [of tiA "[]" "[tiA, tiB, tiA', tiString]" 3]
    reportTypeUsed_dedup [of tiA "[goImportFmt ''istio.io/b'', goImportFmt ''istio.io/a'']" "[]" 2]
  by (simp add: tiA_def tiA'_def tiB_def tiString_def goImportFmt_def prod_eq_iff)

section \<open>Properties of \<open>Generate\<close>\<close>

subsection \<open>The loop over the descriptor files\<close>

lemma loadModels_Cons_loadOne:
  "loadModels env g f (p # rest) models tr =
     (case loadOne env g f p of
        Inl e \<Rightarrow> (Inl e, tr @ [EvReadFile p])
      | Inr m \<Rightarrow> loadModels env g f rest (models @ [m]) (tr @ [EvReadFile p]))"
  by (simp add: loadOne_def split: sum.splits)

lemma loadModels_all_ok:
  "map Inr ms = map (loadOne env g f) ps \<Longrightarrow>
   loadModels env g f ps models tr = (Inr (models @ ms), tr @ map EvReadFile ps)"
proof (induction ps arbitrary: ms models tr)
  case Nil
  then show ?case by simp
next
  case (Cons p ps)
  from Cons.prems obtain m ms' where ms: "ms = m # ms'" by (cases ms) auto
  with Cons.prems have m: "loadOne env g f p = Inr m" and r: "map Inr ms' = map (loadOne env g f) ps"
    by auto
  show ?case
    using Cons.IH [OF r, of "models @ [m]" "tr @ [EvReadFile p]"]
    by (simp only: loadModels_Cons_loadOne m ms) simp
qed

lemma loadModels_first_failure:
  "map Inr ms = map (loadOne env g f) pre \<Longrightarrow> loadOne env g f p = Inl e \<Longrightarrow>
   loadModels env g f (pre @ p # post) models tr = (Inl e, tr @ map EvReadFile (pre @ [p]))"
proof (induction pre arbitrary: ms models tr)
  case Nil
  then show ?case by (simp only: append_Nil loadModels_Cons_loadOne) simp
next
  case (Cons q pre)
  from Cons.prems obtain m ms' where ms: "ms = m # ms'" by (cases ms) auto
  with Cons.prems have m: "loadOne env g f q = Inr m" and r: "map Inr ms' = map (loadOne env g f) pre"
    by auto
  show ?case
    using Cons.IH [OF r Cons.prems(2), of "models @ [m]" "tr @ [EvReadFile q]"]
    by (simp only: append_Cons loadModels_Cons_loadOne m) simp
qed

lemma loadModels_result:
  "(\<exists>ms. map Inr ms = map (loadOne env g f) ps \<and>
      loadModels env g f ps models tr = (Inr (models @ ms), tr @ map EvReadFile ps))
   \<or> (\<exists>pre p post ms e. ps = pre @ p # post \<and> map Inr ms = map (loadOne env g f) pre \<and>
      loadOne env g f p = Inl e \<and>
      loadModels env g f ps models tr = (Inl e, tr @ map EvReadFile (pre @ [p])))"
proof (induction ps rule: rev_induct)
  case Nil
  show ?case by simp
next
  case (snoc p ps)
  from snoc.IH show ?case
  proof (elim disjE exE conjE)
    fix ms assume ms: "map Inr ms = map (loadOne env g f) ps"
    show ?thesis
    proof (cases "loadOne env g f p")
      case (Inl e)
      have "loadModels env g f (ps @ p # []) models tr = (Inl e, tr @ map EvReadFile (ps @ [p]))"
        by (rule loadModels_first_failure [OF ms Inl])
      with ms Inl show ?thesis by blast
    next
      case (Inr m)
      with ms have "map Inr (ms @ [m]) = map (loadOne env g f) (ps @ [p])" by simp
      then show ?thesis using loadModels_all_ok by blast
    qed
  next
    fix pre q post ms e
    assume a: "ps = pre @ q # post" "map Inr ms = map (loadOne env g f) pre" "loadOne env g f q = Inl e"
    have "loadModels env g f (pre @ q # (post @ [p])) models tr = (Inl e, tr @ map EvReadFile (pre @ [q]))"
      by (rule loadModels_first_failure [OF a(2) a(3)])
    moreover have "ps @ [p] = pre @ q # (post @ [p])" using a(1) by simp
    ultimately show ?thesis using a(2,3) by metis
  qed
qed

subsection \<open>The outcomes of \<open>Generate\<close>, stage by stage\<close>

lemma Generate_template_error:
  "template_Parse env = Some err \<Longrightarrow>
   Generate g env f = (Some (''cannot load template: '' @ err), [])"
  by (simp add: Generate_def)

lemma Generate_load_error:
  "template_Parse env = None \<Longrightarrow>
   loadModels env g f (sort (map fst f)) [] [] = (Inl e, tr) \<Longrightarrow>
   Generate g env f = (Some e, tr)"
  by (simp add: Generate_def)

lemma Generate_execute_error:
  "template_Parse env = None \<Longrightarrow>
   loadModels env g f (sort (map fst f)) [] [] = (Inr models, tr) \<Longrightarrow>
   tmpl_Execute env (dataOf g env models) = Inl err \<Longrightarrow>
   Generate g env f =
     (Some (''cannot execute the template with the given data: '' @ err),
      tr @ [EvExecute (dataOf g env models)])"
  by (simp add: Generate_def dataOf_def)

lemma Generate_format_error:
  "template_Parse env = None \<Longrightarrow>
   loadModels env g f (sort (map fst f)) [] [] = (Inr models, tr) \<Longrightarrow>
   tmpl_Execute env (dataOf g env models) = Inr (buf, calls) \<Longrightarrow>
   format_Source env (withImports buf calls) = Inl err \<Longrightarrow>
   Generate g env f =
     (Some (couldNotFormat err buf),
      tr @ [EvExecute (dataOf g env models), EvFormat (withImports buf calls)])"
  by (simp add: Generate_def dataOf_def withImports_def)

lemma Generate_imports_error:
  "template_Parse env = None \<Longrightarrow>
   loadModels env g f (sort (map fst f)) [] [] = (Inr models, tr) \<Longrightarrow>
   tmpl_Execute env (dataOf g env models) = Inr (buf, calls) \<Longrightarrow>
   format_Source env (withImports buf calls) = Inr fmtd \<Longrightarrow>
   imports_Process env (OutFilePath g) fmtd = Inl err \<Longrightarrow>
   Generate g env f =
     (Some (''could not fix imports for generated code: '' @ err),
      tr @ [EvExecute (dataOf g env models), EvFormat (withImports buf calls),
            EvImportsProcess fmtd])"
  by (simp add: Generate_def dataOf_def withImports_def)

lemma Generate_create_error:
  "template_Parse env = None \<Longrightarrow>
   loadModels env g f (sort (map fst f)) [] [] = (Inr models, tr) \<Longrightarrow>
   tmpl_Execute env (dataOf g env models) = Inr (buf, calls) \<Longrightarrow>
   format_Source env (withImports buf calls) = Inr fmtd \<Longrightarrow>
   imports_Process env (OutFilePath g) fmtd = Inr imptd \<Longrightarrow>
   os_Create env (OutFilePath g) = Some err \<Longrightarrow>
   Generate g env f =
     (Some err,
      tr @ [EvExecute (dataOf g env models), EvFormat (withImports buf calls),
            EvImportsProcess fmtd, EvCreate (OutFilePath g)])"
  by (simp add: Generate_def dataOf_def withImports_def)

lemma Generate_write_error:
  "template_Parse env = None \<Longrightarrow>
   loadModels env g f (sort (map fst f)) [] [] = (Inr models, tr) \<Longrightarrow>
   tmpl_Execute env (dataOf g env models) = Inr (buf, calls) \<Longrightarrow>
   format_Source env (withImports buf calls) = Inr fmtd \<Longrightarrow>
   imports_Process env (OutFilePath g) fmtd = Inr imptd \<Longrightarrow>
   os_Create env (OutFilePath g) = None \<Longrightarrow>
   file_Write env (OutFilePath g) imptd = Some err \<Longrightarrow>
   Generate g env f =
     (Some err,
      tr @ [EvExecute (dataOf g env models), EvFormat (withImports buf calls),
            EvImportsProcess fmtd, EvCreate (OutFilePath g),
            EvWrite (OutFilePath g) imptd, EvClose (OutFilePath g),
            EvRemove (OutFilePath g), EvClose (OutFilePath g)])"
  by (simp add: Generate_def dataOf_def withImports_def)

lemma Generate_success:
  "template_Parse env = None \<Longrightarrow>
   loadModels env g f (sort (map fst f)) [] [] = (Inr models, tr) \<Longrightarrow>
   tmpl_Execute env (dataOf g env models) = Inr (buf, calls) \<Longrightarrow>
   format_Source env (withImports buf calls) = Inr fmtd \<Longrightarrow>
   imports_Process env (OutFilePath g) fmtd = Inr imptd \<Longrightarrow>
   os_Create env (OutFilePath g) = None \<Longrightarrow>
   file_Write env (OutFilePath g) imptd = None \<Longrightarrow>
   Generate g env f =
     (None,
      tr @ [EvExecute (dataOf g env models), EvFormat (withImports buf calls),
            EvImportsProcess fmtd, EvCreate (OutFilePath g),
            EvWrite (OutFilePath g) imptd, EvClose (OutFilePath g)])"
  by (simp add: Generate_def dataOf_def withImports_def)

lemma Generate_cases:
  obtains
    err where "template_Parse env = Some err"
      "Generate g env f = (Some (''cannot load template: '' @ err), [])"
  | e tr where "template_Parse env = None"
      "loadModels env g f (sort (map fst f)) [] [] = (Inl e, tr)"
      "Generate g env f = (Some e, tr)"
  | models tr err where "template_Parse env = None"
      "loadModels env g f (sort (map fst f)) [] [] = (Inr models, tr)"
      "tmpl_Execute env (dataOf g env models) = Inl err"
      "Generate g env f =
        (Some (''cannot execute the template with the given data: '' @ err),
         tr @ [EvExecute (dataOf g env models)])"
  | models tr buf calls err where "template_Parse env = None"
      "loadModels env g f (sort (map fst f)) [] [] = (Inr models, tr)"
      "tmpl_Execute env (dataOf g env models) = Inr (buf, calls)"
      "format_Source env (withImports buf calls) = Inl err"
      "Generate g env f =
        (Some (couldNotFormat err buf),
         tr @ [EvExecute (dataOf g env models), EvFormat (withImports buf calls)])"
  | models tr buf calls fmtd err where "template_Parse env = None"
      "loadModels env g f (sort (map fst f)) [] [] = (Inr models, tr)"
      "tmpl_Execute env (dataOf g env models) = Inr (buf, calls)"
      "format_Source env (withImports buf calls) = Inr fmtd"
      "imports_Process env (OutFilePath g) fmtd = Inl err"
      "Generate g env f =
        (Some (''could not fix imports for generated code: '' @ err),
         tr @ [EvExecute (dataOf g env models), EvFormat (withImports buf calls),
               EvImportsProcess fmtd])"
  | models tr buf calls fmtd imptd err where "template_Parse env = None"
      "loadModels env g f (sort (map fst f)) [] [] = (Inr models, tr)"
      "tmpl_Execute env (dataOf g env models) = Inr (buf, calls)"
      "format_Source env (withImports buf calls) = Inr fmtd"
      "imports_Process env (OutFilePath g) fmtd = Inr imptd"
      "os_Create env (OutFilePath g) = Some err"
      "Generate g env f =
        (Some err,
         tr @ [EvExecute (dataOf g env models), EvFormat (withImports buf calls),
               EvImportsProcess fmtd, EvCreate (OutFilePath g)])"
  | models tr buf calls fmtd imptd err where "template_Parse env = None"
      "loadModels env g f (sort (map fst f)) [] [] = (Inr models, tr)"
      "tmpl_Execute env (dataOf g env models) = Inr (buf, calls)"
      "format_Source env (withImports buf calls) = Inr fmtd"
      "imports_Process env (OutFilePath g) fmtd = Inr imptd"
      "os_Create env (OutFilePath g) = None"
      "file_Write env (OutFilePath g) imptd = Some err"
      "Generate g env f =
        (Some err,
         tr @ [EvExecute (dataOf g env models), EvFormat (withImports buf calls),
               EvImportsProcess fmtd, EvCreate (OutFilePath g),
               EvWrite (OutFilePath g) imptd, EvClose (OutFilePath g),
               EvRemove (OutFilePath g), EvClose (OutFilePath g)])"
  | models tr buf calls fmtd imptd where "template_Parse env = None"
      "loadModels env g f (sort (map fst f)) [] [] = (Inr models, tr)"
      "tmpl_Execute env (dataOf g env models) = Inr (buf, calls)"
      "format_Source env (withImports buf calls) = Inr fmtd"
      "imports_Process env (OutFilePath g) fmtd = Inr imptd"
      "os_Create env (OutFilePath g) = None"
      "file_Write env (OutFilePath g) imptd = None"
      "Generate g env f =
        (None,
         tr @ [EvExecute (dataOf g env models), EvFormat (withImports buf calls),
               EvImportsProcess fmtd, EvCreate (OutFilePath g),
               EvWrite (OutFilePath g) imptd, EvClose (OutFilePath g)])"
proof (cases "template_Parse env")
  case (Some err)
  then show ?thesis using that(1) Generate_template_error by blast
next
  case None
  obtain r tr where l: "loadModels env g f (sort (map fst f)) [] [] = (r, tr)"
    by (cases "loadModels env g f (sort (map fst f)) [] []") auto
  show ?thesis
  proof (cases r)
    case (Inl e)
    then show ?thesis using that(2) [OF None] l Generate_load_error [OF None] by blast
  next
    case (Inr models)
    note lm = l [unfolded Inr]
    show ?thesis
    proof (cases "tmpl_Execute env (dataOf g env models)")
      case (Inl err)
      then show ?thesis using that(3) [OF None lm] Generate_execute_error [OF None lm] by blast
    next
      case (Inr bc)
      obtain buf calls where bc: "bc = (buf, calls)" by (cases bc) auto
      note ex = Inr [unfolded bc]
      show ?thesis
      proof (cases "format_Source env (withImports buf calls)")
        case (Inl err)
        then show ?thesis
          using that(4) [OF None lm ex] Generate_format_error [OF None lm ex] by blast
      next
        case (Inr fmtd)
        note fm = Inr
        show ?thesis
        proof (cases "imports_Process env (OutFilePath g) fmtd")
          case (Inl err)
          then show ?thesis
            using that(5) [OF None lm ex fm] Generate_imports_error [OF None lm ex fm] by blast
        next
          case (Inr imptd)
          note im = Inr
          show ?thesis
          proof (cases "os_Create env (OutFilePath g)")
            case (Some err)
            then show ?thesis
              using that(6) [OF None lm ex fm im] Generate_create_error [OF None lm ex fm im]
              by blast
          next
            case None' : None
            show ?thesis
            proof (cases "file_Write env (OutFilePath g) imptd")
              case (Some err)
              then show ?thesis
                using that(7) [OF None lm ex fm im None']
                  Generate_write_error [OF None lm ex fm im None'] by blast
            next
              case None'' : None
              then show ?thesis
                using that(8) [OF None lm ex fm im None']
                  Generate_success [OF None lm ex fm im None'] by blast
            qed
          qed
        qed
      qed
    qed
  qed
qed

subsection \<open>Library functions and traces\<close>

lemma bytes_Replace1_first:
  "c \<notin> set pre \<Longrightarrow>
   bytes_Replace1 (pre @ (c # old) @ post) (c # old) new = pre @ new @ post"
  by (induction pre) auto


lemma readPaths_append: "readPaths (xs @ ys) = readPaths xs @ readPaths ys"
  by (induction xs rule: readPaths.induct) auto

lemma readPaths_map: "readPaths (map EvReadFile ps) = ps"
  by (induction ps) auto

lemma sort_keys:
  "distinct (map fst f) \<Longrightarrow> sort (map fst f) = sorted_list_of_set (fst ` set f)"
proof -
  assume d: "distinct (map fst f)"
  have "sorted_list_of_set (set (map fst f)) = sort (remdups (map fst f))"
    by (rule sorted_list_of_set_sort_remdups)
  then show ?thesis using d by (simp add: distinct_remdups_id)
qed

lemma loadModels_Inr:
  assumes "loadModels env g f ps [] [] = (Inr models, tr)"
  shows "map Inr models = map (loadOne env g f) ps \<and> tr = map EvReadFile ps"
  using loadModels_result [of env g f ps "[]" "[]"] assms by auto

lemma loadModels_Inl:
  assumes "loadModels env g f ps [] [] = (Inl e, tr)"
  shows "\<exists>pre p post ms. ps = pre @ p # post \<and> map Inr ms = map (loadOne env g f) pre \<and>
     loadOne env g f p = Inl e \<and> tr = map EvReadFile (pre @ [p])"
  using loadModels_result [of env g f ps "[]" "[]"] assms by auto

lemma loadModels_trace:
  assumes "loadModels env g f ps [] [] = (r, tr)"
  shows "\<exists>k. tr = map EvReadFile (take k ps)"
proof (cases r)
  case (Inl e)
  then obtain pre p post where "ps = pre @ p # post" "tr = map EvReadFile (pre @ [p])"
    using loadModels_Inl assms by blast
  then have "tr = map EvReadFile (take (Suc (length pre)) ps)" by simp
  then show ?thesis by blast
next
  case (Inr models)
  then have "tr = map EvReadFile (take (length ps) ps)"
    using loadModels_Inr assms by fastforce
  then show ?thesis by blast
qed

lemma map_Inr_loadOne_no_failure:
  "map Inr ms = map (loadOne env g f) ps \<Longrightarrow> p \<in> set ps \<Longrightarrow> loadOne env g f p \<noteq> Inl e"
  by (induction ps arbitrary: ms) auto

lemma sorted_wrt_take: "sorted_wrt R xs \<Longrightarrow> sorted_wrt R (take k xs)"
  by (metis append_take_drop_id sorted_wrt_append)

lemma loadModels_cong:
  "(\<And>p. lookupLabel f p = lookupLabel f' p) \<Longrightarrow>
   loadModels env g f ps models tr = loadModels env g f' ps models tr"
  by (induction ps arbitrary: models tr) (simp_all split: sum.splits)

subsection \<open>The shape of the trace\<close>

lemma Generate_trace_shape:
  "(\<exists>k. snd (Generate g env f) = map EvReadFile (take k (sort (map fst f))))
   \<or> (\<exists>models later.
        map Inr models = map (loadOne env g f) (sort (map fst f))
        \<and> snd (Generate g env f) =
            map EvReadFile (sort (map fst f)) @ EvExecute (dataOf g env models) # later
        \<and> readPaths later = [] \<and> (\<forall>d. EvExecute d \<notin> set later))"
proof -
  have shape: "?thesis"
    if "loadModels env g f (sort (map fst f)) [] [] = (Inr models, tr)"
      and "snd (Generate g env f) = tr @ EvExecute (dataOf g env models) # later"
      and "readPaths later = []" and "\<forall>d. EvExecute d \<notin> set later"
    for models tr later
    using loadModels_Inr [OF that(1)] that(2-) by blast
  show ?thesis
  proof (cases g env f rule: Generate_cases)
    case (1 err)
    then have "snd (Generate g env f) = map EvReadFile (take 0 (sort (map fst f)))" by simp
    then show ?thesis by blast
  next
    case (2 e tr)
    then show ?thesis using loadModels_trace [of env g f "sort (map fst f)" "Inl e" tr] by simp
  next
    case (3 models tr err)
    then show ?thesis using shape [OF 3(2), of "[]"] by simp
  next
    case (4 models tr buf calls err)
    then show ?thesis using shape [OF 4(2), of "[EvFormat (withImports buf calls)]"] by simp
  next
    case (5 models tr buf calls fmtd err)
    then show ?thesis
      using shape [OF 5(2), of "[EvFormat (withImports buf calls), EvImportsProcess fmtd]"]
      by simp
  next
    case (6 models tr buf calls fmtd imptd err)
    then show ?thesis
      using shape [OF 6(2), of "[EvFormat (withImports buf calls), EvImportsProcess fmtd,
        EvCreate (OutFilePath g)]"]
      by simp
  next
    case (7 models tr buf calls fmtd imptd err)
    then show ?thesis
      using shape [OF 7(2), of "[EvFormat (withImports buf calls), EvImportsProcess fmtd,
        EvCreate (OutFilePath g), EvWrite (OutFilePath g) imptd, EvClose (OutFilePath g),
        EvRemove (OutFilePath g), EvClose (OutFilePath g)]"]
      by simp
  next
    case (8 models tr buf calls fmtd imptd)
    then show ?thesis
      using shape [OF 8(2), of "[EvFormat (withImports buf calls), EvImportsProcess fmtd,
        EvCreate (OutFilePath g), EvWrite (OutFilePath g) imptd, EvClose (OutFilePath g)]"]
      by simp
  qed
qed

lemma Generate_format_input:
  assumes "EvFormat src \<in> set (snd (Generate g env f))"
  obtains data buf calls where
    "EvExecute data \<in> set (snd (Generate g env f))"
    "tmpl_Execute env data = Inr (buf, calls)"
    "src = withImports buf calls"
    "\<And>err. format_Source env src = Inl err \<Longrightarrow>
       fst (Generate g env f) = Some (couldNotFormat err buf)"
proof -
  have nf: "\<And>r tr. loadModels env g f (sort (map fst f)) [] [] = (r, tr) \<Longrightarrow>
      EvFormat src \<notin> set tr"
    using loadModels_trace by fastforce
  show ?thesis
  proof (cases g env f rule: Generate_cases)
    case (1 err)
    then show ?thesis using assms by simp
  next
    case (2 e tr)
    then show ?thesis using assms nf by simp
  next
    case (3 models tr err)
    then show ?thesis using assms nf by simp
  next
    case (4 models tr buf calls err')
    then have "src = withImports buf calls" using assms nf by auto
    then show ?thesis using 4 that [of "dataOf g env models" buf calls] by simp
  next
    case (5 models tr buf calls fmtd err)
    then have "src = withImports buf calls" using assms nf by auto
    then show ?thesis using 5 that [of "dataOf g env models" buf calls] by simp
  next
    case (6 models tr buf calls fmtd imptd err)
    then have "src = withImports buf calls" using assms nf by auto
    then show ?thesis using 6 that [of "dataOf g env models" buf calls] by simp
  next
    case (7 models tr buf calls fmtd imptd err)
    then have "src = withImports buf calls" using assms nf by auto
    then show ?thesis using 7 that [of "dataOf g env models" buf calls] by simp
  next
    case (8 models tr buf calls fmtd imptd)
    then have "src = withImports buf calls" using assms nf by auto
    then show ?thesis using 8 that [of "dataOf g env models" buf calls] by simp
  qed
qed

lemma Generate_touch_only_after_success:
  assumes "\<exists>ev \<in> set (snd (Generate g env f)). touchesFile ev"
  shows "\<exists>models buf calls fmtd imptd.
      template_Parse env = None
      \<and> map Inr models = map (loadOne env g f) (sort (map fst f))
      \<and> tmpl_Execute env (dataOf g env models) = Inr (buf, calls)
      \<and> format_Source env (withImports buf calls) = Inr fmtd
      \<and> imports_Process env (OutFilePath g) fmtd = Inr imptd"
proof -
  have nt: "\<And>r tr. loadModels env g f (sort (map fst f)) [] [] = (r, tr) \<Longrightarrow>
      \<forall>ev \<in> set tr. \<not> touchesFile ev"
    using loadModels_trace by fastforce
  show ?thesis
  proof (cases g env f rule: Generate_cases)
    case (1 err)
    then show ?thesis using assms by simp
  next
    case (2 e tr)
    then show ?thesis using assms nt by fastforce
  next
    case (3 models tr err)
    then show ?thesis using assms nt [OF 3(2)] by auto
  next
    case (4 models tr buf calls err)
    then show ?thesis using assms nt [OF 4(2)] by auto
  next
    case (5 models tr buf calls fmtd err)
    then show ?thesis using assms nt [OF 5(2)] by auto
  next
    case (6 models tr buf calls fmtd imptd err)
    then show ?thesis using loadModels_Inr [OF 6(2)] by blast
  next
    case (7 models tr buf calls fmtd imptd err)
    then show ?thesis using loadModels_Inr [OF 7(2)] by blast
  next
    case (8 models tr buf calls fmtd imptd)
    then show ?thesis using loadModels_Inr [OF 8(2)] by blast
  qed
qed

lemma Generate_write_failure:
  assumes "EvWrite p b \<in> set (snd (Generate g env f))" and "file_Write env p b = Some err"
  shows "p = OutFilePath g \<and> fst (Generate g env f) = Some err
    \<and> (\<exists>tr0. snd (Generate g env f) =
          tr0 @ [EvCreate p, EvWrite p b, EvClose p, EvRemove p, EvClose p])"
proof -
  have nw: "\<And>r tr. loadModels env g f (sort (map fst f)) [] [] = (r, tr) \<Longrightarrow>
      EvWrite p b \<notin> set tr"
    using loadModels_trace by fastforce
  show ?thesis
  proof (cases g env f rule: Generate_cases)
    case (1 err)
    then show ?thesis using assms by simp
  next
    case (2 e tr)
    then show ?thesis using assms nw by simp
  next
    case (3 models tr err)
    then show ?thesis using assms nw by simp
  next
    case (4 models tr buf calls err)
    then show ?thesis using assms nw by simp
  next
    case (5 models tr buf calls fmtd err)
    then show ?thesis using assms nw by simp
  next
    case (6 models tr buf calls fmtd imptd err)
    then show ?thesis using assms nw by simp
  next
    case (7 models tr buf calls fmtd imptd err')
    then have pb: "p = OutFilePath g \<and> b = imptd" using assms nw by auto
    then have "err' = err" using 7 assms by simp
    moreover have "snd (Generate g env f) =
        (tr @ [EvExecute (dataOf g env models), EvFormat (withImports buf calls),
               EvImportsProcess fmtd]) @
        [EvCreate p, EvWrite p b, EvClose p, EvRemove p, EvClose p]"
      using 7 pb by simp
    ultimately show ?thesis using 7 pb by (metis fst_conv)
  next
    case (8 models tr buf calls fmtd imptd)
    then have "p = OutFilePath g \<and> b = imptd" using assms nw by auto
    then show ?thesis using 8 assms by simp
  qed
qed

lemma Generate_first_failure:
  assumes "template_Parse env = None" and "p \<in> set (map fst f)"
    and "loadOne env g f p = Inl e"
  shows "\<exists>pre q post ms e'. sort (map fst f) = pre @ q # post
      \<and> map Inr ms = map (loadOne env g f) pre
      \<and> loadOne env g f q = Inl e'
      \<and> Generate g env f = (Some e', map EvReadFile (pre @ [q]))"
proof -
  have p: "p \<in> set (sort (map fst f))" using assms(2) by simp
  from loadModels_result [of env g f "sort (map fst f)" "[]" "[]"]
  show ?thesis
  proof (elim disjE exE conjE)
    fix ms assume "map Inr ms = map (loadOne env g f) (sort (map fst f))"
    then show ?thesis using map_Inr_loadOne_no_failure p assms(3) by blast
  next
    fix pre q post ms e'
    assume a: "sort (map fst f) = pre @ q # post" "map Inr ms = map (loadOne env g f) pre"
      "loadOne env g f q = Inl e'"
      "loadModels env g f (sort (map fst f)) [] [] = (Inl e', [] @ map EvReadFile (pre @ [q]))"
    have "Generate g env f = (Some e', map EvReadFile (pre @ [q]))"
      using Generate_load_error [OF assms(1), of g f e'] a(4) by simp
    then show ?thesis using a(1-3) by blast
  qed
qed

lemma Generate_only_failure:
  assumes "template_Parse env = None" and "p \<in> set (map fst f)"
    and "loadOne env g f p = Inl e"
    and "\<forall>q \<in> set (map fst f). q \<noteq> p \<longrightarrow> (\<exists>m. loadOne env g f q = Inr m)"
  shows "fst (Generate g env f) = Some e"
proof -
  obtain pre q post ms e' where a: "sort (map fst f) = pre @ q # post"
    "loadOne env g f q = Inl e'" "Generate g env f = (Some e', map EvReadFile (pre @ [q]))"
    using Generate_first_failure [OF assms(1-3)] by blast
  have "q \<in> set (sort (map fst f))" using a(1) by simp
  then have "q \<in> set (map fst f)" by simp
  then have "q = p" using assms(4) a(2) by fastforce
  then show ?thesis using a assms(3) by simp
qed

text \<open>The equations that evaluate \<open>Generate\<close> on the concrete inputs.\<close>

lemmas eval_defs = Generate_def envOk_def envFormatFails_def envWriteFails_def gen0_def
  getFileDescSet_def lookupLabel_def getParentDirName_def cannotParseFile_def
  envNoPlaceholder_def couldNotFormat_def Let_def reportAll_def reportTypeUsed_def
  goImportFmt_def placeholder_def tiA_def tiA'_def tiB_def tiString_def

subsection \<open>The source text attached to a format error\<close>




subsection \<open>The path in the error of a descriptor that does not load\<close>

text \<open>
  Claim C4: an error of \<open>Generate\<close> names the descriptor file it is about; when a file
  cannot be deserialised, the error identifies the path of the file. The code prints
  \<open>fds\<close>, the nil descriptor set, where the message has its place for the file: for the
  file \<open>bad.fds\<close>, whose bytes are not a descriptor set, the error is
  \<open>cannot parse file '<nil>' as a FileDescriptorSetProto. unexpected EOF\<close>, and the path
  does not occur in it.
\<close>

theorem Generate_unmarshal_error_hides_path:
  "Generate gen0 envOk [(''bad.fds'', ''lbl'')] =
     (Some (''cannot parse file '' @ [CHR 0x27] @ ''<nil>'' @ [CHR 0x27] @
            '' as a FileDescriptorSetProto. unexpected EOF''),
      [EvReadFile ''bad.fds''])
   \<and> \<not> strings_Contains
         (''cannot parse file '' @ [CHR 0x27] @ ''<nil>'' @ [CHR 0x27] @
          '' as a FileDescriptorSetProto. unexpected EOF'') ''bad.fds''"
  by (simp add: eval_defs)

subsection \<open>The order in which the descriptors are processed\<close>

text \<open>
  Claim C6: whatever the order in which the map \<open>fdsFiles\<close> is visited, \<open>Generate\<close> reads
  the descriptor files in the ascending lexicographic order of their paths: the paths read
  are an initial part of the sorted list of the keys, which depends on the set of keys
  only. When the template is executed all of them have been read, and \<open>TemplateModels\<close>
  holds the models of the paths in this order. For the paths \<open>b.fds\<close> and \<open>a.fds\<close> the
  model of \<open>a.fds\<close> comes first.
\<close>

theorem Generate_sorted_order:
  assumes "distinct (map fst f)"
  shows "(\<exists>k. readPaths (snd (Generate g env f)) = take k (sorted_list_of_set (fst ` set f)))
    \<and> sorted_wrt (<) (readPaths (snd (Generate g env f)))
    \<and> (\<forall>data. EvExecute data \<in> set (snd (Generate g env f)) \<longrightarrow>
          readPaths (snd (Generate g env f)) = sorted_list_of_set (fst ` set f)
          \<and> map Inr (TemplateModels data) =
              map (loadOne env g f) (sorted_list_of_set (fst ` set f)))"
proof -
  let ?ks = "sorted_list_of_set (fst ` set f)"
  have ks: "sort (map fst f) = ?ks" using assms by (rule sort_keys)
  have sk: "sorted_wrt (<) ?ks" by (rule strict_sorted_list_of_set)
  have main: "(\<exists>k. readPaths (snd (Generate g env f)) = take k ?ks)
    \<and> (\<forall>data. EvExecute data \<in> set (snd (Generate g env f)) \<longrightarrow>
          readPaths (snd (Generate g env f)) = ?ks
          \<and> map Inr (TemplateModels data) = map (loadOne env g f) ?ks)"
    using Generate_trace_shape [of g env f] unfolding ks
  proof (elim disjE exE conjE)
    fix k assume "snd (Generate g env f) = map EvReadFile (take k ?ks)"
    then show ?thesis by (auto simp: readPaths_map)
  next
    fix models later
    assume m: "map Inr models = map (loadOne env g f) ?ks"
      and t: "snd (Generate g env f) = map EvReadFile ?ks @ EvExecute (dataOf g env models) # later"
      and l: "readPaths later = []" "\<forall>d. EvExecute d \<notin> set later"
    have r: "readPaths (snd (Generate g env f)) = ?ks"
      using t l by (simp add: readPaths_append readPaths_map)
    then have "readPaths (snd (Generate g env f)) = take (length ?ks) ?ks" by simp
    then have "\<exists>k. readPaths (snd (Generate g env f)) = take k ?ks" by blast
    moreover have "\<And>data. EvExecute data \<in> set (snd (Generate g env f)) \<Longrightarrow>
        TemplateModels data = models"
      using t l by (auto simp: dataOf_def)
    ultimately show ?thesis using r m by auto
  qed
  moreover have "sorted_wrt (<) (readPaths (snd (Generate g env f)))"
    using main sk sorted_wrt_take by metis
  ultimately show ?thesis by blast
qed

theorem Generate_sorted_order_witness:
  "distinct (map fst [(''b.fds'', ''lb''), (''a.fds'', ''la'')])
   \<and> readPaths (snd (Generate gen0 envOk [(''b.fds'', ''lb''), (''a.fds'', ''la'')])) =
       [''a.fds'', ''b.fds'']
   \<and> EvExecute \<lparr>PkgName = ''gen'', TemplateModels = [''a.fds#la'', ''b.fds#lb'']\<rparr>
       \<in> set (snd (Generate gen0 envOk [(''b.fds'', ''lb''), (''a.fds'', ''la'')]))
   \<and> loadOne envOk gen0 [(''b.fds'', ''lb''), (''a.fds'', ''la'')] ''a.fds'' = Inr ''a.fds#la''
   \<and> loadOne envOk gen0 [(''b.fds'', ''lb''), (''a.fds'', ''la'')] ''b.fds'' = Inr ''b.fds#lb''"
  using Generate_sorted_order [of "[(''b.fds'', ''lb''), (''a.fds'', ''la'')]" gen0 envOk]
  by (simp add: eval_defs loadOne_def)

subsection \<open>Failures\<close>

text \<open>
  Claim C8: when a descriptor fails to load or its model cannot be built, \<open>Generate\<close>
  returns the error of the first such descriptor in the sorted order (the error of the
  one that fails, when one fails), having read the files up to this one and done nothing
  else: no later descriptor is read, no later stage runs, no file is created, written or
  removed. The error of the model builder is returned as it is, the error of reading,
  deserialising or creating the parser inside the message of \<open>cannotParseFile\<close>. A later
  stage runs only when every descriptor gave a model, and a file is created, written or
  removed only when rendering, formatting and fixing the imports have all succeeded.
  When the write fails, \<open>Generate\<close> closes the file it has just created, removes it, and
  then returns the error of the write.
\<close>

theorem Generate_fail_fast:
  "(template_Parse env = None \<and> p \<in> set (map fst f) \<and> loadOne env g f p = Inl e \<longrightarrow>
      (\<exists>pre q post ms e'. sort (map fst f) = pre @ q # post
        \<and> map Inr ms = map (loadOne env g f) pre
        \<and> loadOne env g f q = Inl e'
        \<and> Generate g env f = (Some e', map EvReadFile (pre @ [q]))))
   \<and> (template_Parse env = None \<and> p \<in> set (map fst f) \<and> loadOne env g f p = Inl e
        \<and> (\<forall>q \<in> set (map fst f). q \<noteq> p \<longrightarrow> (\<exists>m. loadOne env g f q = Inr m)) \<longrightarrow>
        fst (Generate g env f) = Some e)
   \<and> ((\<exists>ev \<in> set (snd (Generate g env f)). isLaterStage ev) \<longrightarrow>
        template_Parse env = None
        \<and> (\<exists>models. map Inr models = map (loadOne env g f) (sort (map fst f))))
   \<and> ((\<exists>ev \<in> set (snd (Generate g env f)). touchesFile ev) \<longrightarrow>
        (\<exists>models buf calls fmtd imptd.
          template_Parse env = None
          \<and> map Inr models = map (loadOne env g f) (sort (map fst f))
          \<and> tmpl_Execute env (dataOf g env models) = Inr (buf, calls)
          \<and> format_Source env (withImports buf calls) = Inr fmtd
          \<and> imports_Process env (OutFilePath g) fmtd = Inr imptd))
   \<and> (EvWrite p' b \<in> set (snd (Generate g env f)) \<and> file_Write env p' b = Some err \<longrightarrow>
        p' = OutFilePath g \<and> fst (Generate g env f) = Some err
        \<and> (\<exists>tr0. snd (Generate g env f) =
              tr0 @ [EvCreate p', EvWrite p' b, EvClose p', EvRemove p', EvClose p']))"
proof (intro conjI impI)
  assume "template_Parse env = None \<and> p \<in> set (map fst f) \<and> loadOne env g f p = Inl e"
  then show "\<exists>pre q post ms e'. sort (map fst f) = pre @ q # post
        \<and> map Inr ms = map (loadOne env g f) pre
        \<and> loadOne env g f q = Inl e'
        \<and> Generate g env f = (Some e', map EvReadFile (pre @ [q]))"
    using Generate_first_failure by blast
next
  assume "template_Parse env = None \<and> p \<in> set (map fst f) \<and> loadOne env g f p = Inl e
        \<and> (\<forall>q \<in> set (map fst f). q \<noteq> p \<longrightarrow> (\<exists>m. loadOne env g f q = Inr m))"
  then show "fst (Generate g env f) = Some e"
    using Generate_only_failure [of env p f g e] by blast
next
  assume a: "\<exists>ev \<in> set (snd (Generate g env f)). isLaterStage ev"
  have nl: "\<And>k. \<forall>ev \<in> set (map EvReadFile (take k (sort (map fst f))) :: 'c event list).
      \<not> isLaterStage ev"
    by auto
  from Generate_trace_shape [of g env f] a nl
  have s: "\<exists>models. map Inr models = map (loadOne env g f) (sort (map fst f))"
    by metis
  then show "\<exists>models. map Inr models = map (loadOne env g f) (sort (map fst f))" .
  show "template_Parse env = None"
  proof (cases "template_Parse env")
    case None
    then show ?thesis .
  next
    case (Some err)
    then show ?thesis using a Generate_template_error [OF Some, of g f] by simp
  qed
next
  assume "\<exists>ev \<in> set (snd (Generate g env f)). touchesFile ev"
  then show "\<exists>models buf calls fmtd imptd.
          template_Parse env = None
          \<and> map Inr models = map (loadOne env g f) (sort (map fst f))
          \<and> tmpl_Execute env (dataOf g env models) = Inr (buf, calls)
          \<and> format_Source env (withImports buf calls) = Inr fmtd
          \<and> imports_Process env (OutFilePath g) fmtd = Inr imptd"
    by (rule Generate_touch_only_after_success)
next
  assume a: "EvWrite p' b \<in> set (snd (Generate g env f)) \<and> file_Write env p' b = Some err"
  then show "p' = OutFilePath g" "fst (Generate g env f) = Some err"
    "\<exists>tr0. snd (Generate g env f) =
              tr0 @ [EvCreate p', EvWrite p' b, EvClose p', EvRemove p', EvClose p']"
    using Generate_write_failure [of p' b g env f err] by blast+
qed

theorem Generate_fail_fast_witness:
  "Generate gen0 envOk
      [(''b.fds'', ''lb''), (''nomodel.fds'', []), (''bad.fds'', ''l''), (''a.fds'', ''la'')] =
     (Some (cannotParseFile ''<nil>'' ''unexpected EOF''),
      [EvReadFile ''a.fds'', EvReadFile ''b.fds'', EvReadFile ''bad.fds''])
   \<and> Generate gen0 envOk [(''b.fds'', ''lb''), (''nomodel.fds'', []), (''a.fds'', ''la'')] =
     (Some ''no template message'',
      [EvReadFile ''a.fds'', EvReadFile ''b.fds'', EvReadFile ''nomodel.fds''])
   \<and> EvCreate ''gen/out.go'' \<in> set (snd (Generate gen0 envOk [(''a.fds'', ''la'')]))
   \<and> fst (Generate gen0 envOk [(''a.fds'', ''la'')]) = None
   \<and> Generate gen0 envWriteFails [(''a.fds'', ''la'')] =
     (Some ''no space left on device'',
      [EvReadFile ''a.fds'',
       EvExecute \<lparr>PkgName = ''gen'', TemplateModels = [''a.fds#la'']\<rparr>,
       EvFormat (''package gen import('' @ goImportFmt ''istio.io/a'' @ [CHR 0x0A] @
                 goImportFmt ''istio.io/b'' @ '') a.fds#la''),
       EvImportsProcess (''package gen import('' @ goImportFmt ''istio.io/a'' @ [CHR 0x0A] @
                 goImportFmt ''istio.io/b'' @ '') a.fds#la''),
       EvCreate ''gen/out.go'',
       EvWrite ''gen/out.go'' (''package gen import('' @ goImportFmt ''istio.io/a'' @
                 [CHR 0x0A] @ goImportFmt ''istio.io/b'' @ '') a.fds#la''),
       EvClose ''gen/out.go'', EvRemove ''gen/out.go'', EvClose ''gen/out.go''])"
  using Generate_fail_fast [where env = envOk and g = gen0 and p = "''bad.fds''"
      and f = "[(''b.fds'', ''lb''), (''nomodel.fds'', []), (''bad.fds'', ''l''), (''a.fds'', ''la'')]"
      and e = "cannotParseFile ''<nil>'' ''unexpected EOF''"]
    Generate_fail_fast [where env = envOk and g = gen0 and p = "''nomodel.fds''"
      and f = "[(''b.fds'', ''lb''), (''nomodel.fds'', []), (''a.fds'', ''la'')]"
      and e = "''no template message''"]
    Generate_fail_fast [where env = envOk and g = gen0 and f = "[(''a.fds'', ''la'')]"]
    Generate_fail_fast [where env = envWriteFails and g = gen0 and f = "[(''a.fds'', ''la'')]"
      and p' = "''gen/out.go''" and err = "''no space left on device''"
      and b = "''package gen import('' @ goImportFmt ''istio.io/a'' @ [CHR 0x0A] @
                 goImportFmt ''istio.io/b'' @ '') a.fds#la''"]
  by (simp add: eval_defs loadOne_def)

subsection \<open>Determinism\<close>

text \<open>
  Claim C9: \<open>Generate\<close> is deterministic. The collaborators are functions of their
  arguments, so the contents of the descriptor files and the results of the stages are
  fixed with the environment; what may differ between two calls with the same map is the
  order in which \<open>range\<close> visits it. Two association lists with distinct keys and the same
  entries give the same error and the same trace, hence the same bytes written.
\<close>

theorem Generate_deterministic:
  assumes "distinct (map fst f)" and "distinct (map fst f')" and "set f = set f'"
  shows "Generate g env f = Generate g env f'"
proof -
  have "fst ` set f = fst ` set f'" using assms(3) by simp
  then have k: "sort (map fst f) = sort (map fst f')"
    using assms(1,2) by (simp add: sort_keys)
  have "map_of f = map_of f'" using assms by (simp add: map_of_inject_set)
  then have "\<And>p. lookupLabel f p = lookupLabel f' p" by (simp add: lookupLabel_def)
  then have "loadModels env g f (sort (map fst f')) [] [] =
      loadModels env g f' (sort (map fst f')) [] []"
    by (rule loadModels_cong)
  then show ?thesis by (simp only: Generate_def Let_def k)
qed

theorem Generate_deterministic_witness:
  "Generate gen0 envOk [(''b.fds'', ''lb''), (''a.fds'', ''la'')] =
     Generate gen0 envOk [(''a.fds'', ''la''), (''b.fds'', ''lb'')]
   \<and> fst (Generate gen0 envOk [(''b.fds'', ''lb''), (''a.fds'', ''la'')]) = None"
  using Generate_deterministic [of "[(''b.fds'', ''lb''), (''a.fds'', ''la'')]"
      "[(''a.fds'', ''la''), (''b.fds'', ''lb'')]" gen0 envOk]
  by (simp add: eval_defs)

subsection \<open>The imports injected into the rendered text\<close>

text \<open>
  Claim C10: an entry of the slice \<open>imprts\<close> is the import between two double quotes; the
  test for a duplicate compares these quoted strings (which are equal exactly when the
  imports are); the entries of a render pass are the quoted non-empty imports of the
  types reported; and the bytes given to the formatter are the rendered text with the
  first placeholder replaced by the entries joined with newlines.
\<close>

theorem imports_quoted_and_joined:
  "goImportFmt s = [CHR 0x22] @ s @ [CHR 0x22]
   \<and> (goImportFmt s = goImportFmt s' \<longleftrightarrow> s = s')
   \<and> snd (reportTypeUsed ti imprts) =
       (if Import ti \<noteq> [] \<and> [CHR 0x22] @ Import ti @ [CHR 0x22] \<notin> set imprts
        then imprts @ [[CHR 0x22] @ Import ti @ [CHR 0x22]] else imprts)
   \<and> set (reportAll calls []) =
       {[CHR 0x22] @ Import t @ [CHR 0x22] | t. t \<in> set calls \<and> Import t \<noteq> []}
   \<and> (EvFormat src \<in> set (snd (Generate g env f)) \<longrightarrow>
        (\<exists>data buf cs.
           EvExecute data \<in> set (snd (Generate g env f))
           \<and> tmpl_Execute env data = Inr (buf, cs)
           \<and> src = bytes_Replace1 buf placeholder (strings_Join (reportAll cs []) [CHR 0x0A])
           \<and> (\<forall>pre post. buf = pre @ placeholder @ post \<and> CHR ''$'' \<notin> set pre \<longrightarrow>
                 src = pre @ strings_Join (reportAll cs []) [CHR 0x0A] @ post)))"
proof (intro conjI impI)
  show "goImportFmt s = [CHR 0x22] @ s @ [CHR 0x22]"
    by (simp add: goImportFmt_def)
  show "goImportFmt s = goImportFmt s' \<longleftrightarrow> s = s'"
    by (simp add: goImportFmt_def)
  show "snd (reportTypeUsed ti imprts) =
       (if Import ti \<noteq> [] \<and> [CHR 0x22] @ Import ti @ [CHR 0x22] \<notin> set imprts
        then imprts @ [[CHR 0x22] @ Import ti @ [CHR 0x22]] else imprts)"
    using reportTypeUsed_snd [of ti imprts] by (simp add: goImportFmt_def)
  show "set (reportAll calls []) =
       {[CHR 0x22] @ Import t @ [CHR 0x22] | t. t \<in> set calls \<and> Import t \<noteq> []}"
    by (auto simp: reportAll_first_seen goImportFmt_def)
next
  assume "EvFormat src \<in> set (snd (Generate g env f))"
  then obtain data buf cs where d:
    "EvExecute data \<in> set (snd (Generate g env f))"
    "tmpl_Execute env data = Inr (buf, cs)"
    "src = withImports buf cs"
    using Generate_format_input [of src g env f] by metis
  have "\<forall>pre post. buf = pre @ placeholder @ post \<and> CHR ''$'' \<notin> set pre \<longrightarrow>
      withImports buf cs = pre @ strings_Join (reportAll cs []) [CHR 0x0A] @ post"
    using bytes_Replace1_first [of "CHR ''$''" _ "''$additional_imports$$''"]
    by (simp add: withImports_def placeholder_def)
  then show "\<exists>data buf cs.
           EvExecute data \<in> set (snd (Generate g env f))
           \<and> tmpl_Execute env data = Inr (buf, cs)
           \<and> src = bytes_Replace1 buf placeholder (strings_Join (reportAll cs []) [CHR 0x0A])
           \<and> (\<forall>pre post. buf = pre @ placeholder @ post \<and> CHR ''$'' \<notin> set pre \<longrightarrow>
                 src = pre @ strings_Join (reportAll cs []) [CHR 0x0A] @ post)"
    using d unfolding withImports_def by blast
qed

theorem imports_quoted_and_joined_witness:
  "reportAll [tiA, tiB, tiA', tiString] [] =
     [[CHR 0x22] @ ''istio.io/a'' @ [CHR 0x22], [CHR 0x22] @ ''istio.io/b'' @ [CHR 0x22]]
   \<and> EvFormat (''package gen import('' @ [CHR 0x22] @ ''istio.io/a'' @ [CHR 0x22] @ [CHR 0x0A]
        @ [CHR 0x22] @ ''istio.io/b'' @ [CHR 0x22] @ '') a.fds#la'')
       \<in> set (snd (Generate gen0 envOk [(''a.fds'', ''la'')]))
   \<and> tmpl_Execute envOk \<lparr>PkgName = ''gen'', TemplateModels = [''a.fds#la'']\<rparr> =
       Inr (''package gen import('' @ placeholder @ '') a.fds#la'', [tiA, tiB, tiA', tiString])"
  using imports_quoted_and_joined [where g = gen0 and env = envOk
      and f = "[(''a.fds'', ''la'')]" and calls = "[]" and ti = tiString and imprts = "[]"
      and s = "[]" and s' = "[]"
      and src = "''package gen import('' @ [CHR 0x22] @ ''istio.io/a'' @ [CHR 0x22] @
        [CHR 0x0A] @ [CHR 0x22] @ ''istio.io/b'' @ [CHR 0x22] @ '') a.fds#la''"]
  by (simp add: eval_defs)

end
